theory Spec2Isabelle
  imports Main
begin

section \<open>Python values\<close>

text \<open>
  Exceptions are values: a function that can raise returns \<open>py_error + 'a\<close>, with
  \<open>Inl\<close> for the exception that leaves it.
\<close>

datatype py_error =
    IndexError
  | KeyError string
  | ValueError
  | RuntimeError
  | RateLimitExceededException
  | OtherException string

text \<open>
  \<^verbatim>\<open>str.split(sep)\<close> with a one-character separator, \<^verbatim>\<open>sep.join(parts)\<close>,
  \<^verbatim>\<open>str.startswith\<close> and \<^verbatim>\<open>str.endswith\<close>.
\<close>

fun split_on :: "char \<Rightarrow> string \<Rightarrow> string list" where
  "split_on sep [] = [[]]"
| "split_on sep (c # cs) =
     (if c = sep then [] # split_on sep cs
      else (case split_on sep cs of w # ws \<Rightarrow> (c # w) # ws | [] \<Rightarrow> [[c]]))"

fun join_on :: "string \<Rightarrow> string list \<Rightarrow> string" where
  "join_on sep [] = []"
| "join_on sep [p] = p"
| "join_on sep (p # q # ps) = p @ sep @ join_on sep (q # ps)"

definition startswith :: "string \<Rightarrow> string \<Rightarrow> bool" where
  "startswith s p = (take (length p) s = p)"

definition endswith :: "string \<Rightarrow> string \<Rightarrow> bool" where
  "endswith s p = (length p \<le> length s \<and> drop (length s - length p) s = p)"

section \<open>Port status records and the port state\<close>

text \<open>
  The dashboard generator \<^verbatim>\<open>make_html.py\<close> reads one status record per tracked
  file. The record type lives in the module \<^verbatim>\<open>port_status_yaml\<close>; the fields used
  by \<^verbatim>\<open>make_html.py\<close> are \<^verbatim>\<open>ported\<close>, \<^verbatim>\<open>mathlib4_pr\<close>, \<^verbatim>\<open>mathlib4_file\<close> and
  \<^verbatim>\<open>source\<close>, the last one a pair of a repository name and a commit hash.
\<close>

datatype PortState = UNPORTED | IN_PROGRESS | PORTED

record Source =
  repo :: string
  commit :: string

record PortStatusEntry =
  ported :: bool
  mathlib4_pr :: "int option"
  mathlib4_file :: "string option"
  source :: "Source option"

text \<open>
  Python tests \<^verbatim>\<open>self.status.mathlib4_pr and self.status.source\<close> by truth value:
  \<^verbatim>\<open>None\<close> and the integer \<^verbatim>\<open>0\<close> are false, every other integer is true; a
  dataclass instance is true, \<^verbatim>\<open>None\<close> is false.
\<close>

definition truthy_int :: "int option \<Rightarrow> bool" where
  "truthy_int v = (case v of None \<Rightarrow> False | Some n \<Rightarrow> n \<noteq> 0)"

definition truthy_obj :: "'a option \<Rightarrow> bool" where
  "truthy_obj v = (case v of None \<Rightarrow> False | Some x \<Rightarrow> True)"

text \<open>
  \<^verbatim>\<open>Mathlib3FileData\<close>. The fields \<^verbatim>\<open>dependents\<close> and \<^verbatim>\<open>dependencies\<close> hold
  references to other \<^verbatim>\<open>Mathlib3FileData\<close> objects, all of them values of the
  dictionary \<^verbatim>\<open>data\<close> of \<^verbatim>\<open>get_data\<close>; a reference is modelled by the key of the
  object in that dictionary, and the dictionary (in insertion order) by an
  association list. \<^verbatim>\<open>mathlib4_history\<close> keeps, per history entry, the commit hash
  \<^verbatim>\<open>h.source.commit\<close>, the only part of an entry that \<^verbatim>\<open>make_html.py\<close> reads.
\<close>

record label =
  label_name :: string
  label_color :: string
  label_text_color :: string

record Mathlib3FileData =
  mathlib3_import :: "string list"
  status :: PortStatusEntry
  lines :: "nat option"
  labels :: "label list"
  dependents :: "string list option"
  dependencies :: "string list option"
  mathlib4_history :: "string list"

type_synonym file_store = "(string \<times> Mathlib3FileData) list"

definition state :: "Mathlib3FileData \<Rightarrow> PortState" where
  "state self =
     (if ported (status self) then PORTED
      else if truthy_int (mathlib4_pr (status self)) \<and> truthy_obj (source (status self))
        then IN_PROGRESS
      else UNPORTED)"

definition new_file_data :: "string list \<Rightarrow> PortStatusEntry \<Rightarrow> nat option \<Rightarrow> label list \<Rightarrow> Mathlib3FileData" where
  "new_file_data imp st ln lbls =
     \<lparr>mathlib3_import = imp, status = st, lines = ln, labels = lbls,
      dependents = None, dependencies = None, mathlib4_history = []\<rparr>"

subsection \<open>Dependency counts and the sort key\<close>

text \<open>
  \<^verbatim>\<open>dep_counts\<close> counts the dependencies in each state, in the declaration order of
  the enumeration. The state of a dependency is read through its reference.
\<close>

definition state_at :: "file_store \<Rightarrow> string \<Rightarrow> PortState option" where
  "state_at data k = map_option state (map_of data k)"

definition dep_counts :: "file_store \<Rightarrow> Mathlib3FileData \<Rightarrow> (nat \<times> nat \<times> nat) option" where
  "dep_counts data self =
     (case dependencies self of
        Some deps \<Rightarrow>
          Some (length [x \<leftarrow> deps. state_at data x = Some UNPORTED],
                length [x \<leftarrow> deps. state_at data x = Some IN_PROGRESS],
                length [x \<leftarrow> deps. state_at data x = Some PORTED])
      | None \<Rightarrow> None)"

text \<open>\<^verbatim>\<open>sys.maxsize\<close> of a 64-bit CPython.\<close>

definition sys_maxsize :: int where
  "sys_maxsize = 2 ^ 63 - 1"

definition IN_PROGRESS_EQUIV_UNPORTED :: int where
  "IN_PROGRESS_EQUIV_UNPORTED = 5"

definition dep_counts_sort_key :: "file_store \<Rightarrow> Mathlib3FileData \<Rightarrow> int" where
  "dep_counts_sort_key data self =
     (case dep_counts data self of
        None \<Rightarrow> sys_maxsize
      | Some (u, i, p) \<Rightarrow> int u * 10000 * IN_PROGRESS_EQUIV_UNPORTED + int i * 10000)"

section \<open>The import graph\<close>

text \<open>
  \<^verbatim>\<open>nx.DiGraph\<close>, as far as \<^verbatim>\<open>make_html.py\<close> uses it: the nodes and the edges, each
  in insertion order. \<^verbatim>\<open>add_node\<close> and \<^verbatim>\<open>add_edge\<close> add what is not yet there;
  \<^verbatim>\<open>add_edge\<close> also adds both end points as nodes.
\<close>

record DiGraph =
  nodes :: "string list"
  edges :: "(string \<times> string) list"

definition DiGraph_new :: DiGraph where
  "DiGraph_new = \<lparr>nodes = [], edges = []\<rparr>"

definition add_node :: "DiGraph \<Rightarrow> string \<Rightarrow> DiGraph" where
  "add_node g n = (if n \<in> set (nodes g) then g else g\<lparr>nodes := nodes g @ [n]\<rparr>)"

definition add_edge :: "DiGraph \<Rightarrow> string \<Rightarrow> string \<Rightarrow> DiGraph" where
  "add_edge g u v =
     (let g' = add_node (add_node g u) v
      in if (u, v) \<in> set (edges g') then g' else g'\<lparr>edges := edges g' @ [(u, v)]\<rparr>)"

subsection \<open>\<^verbatim>\<open>parse_imports\<close>\<close>

text \<open>
  A path is the list of its \<^verbatim>\<open>parts\<close>. The source tree under \<^verbatim>\<open>root_path\<close> is
  given by its files, each with its path relative to \<^verbatim>\<open>root_path\<close> and its text;
  \<^verbatim>\<open>root_path.glob('**/*.lean')\<close> yields \<^verbatim>\<open>root_path\<close> joined with the relative path
  of every file whose name ends in \<^verbatim>\<open>.lean\<close>.

  \<^verbatim>\<open>import_re\<close> is \<^verbatim>\<open>^import ([^ ]*)\<close>, matched at the start of the line: the token
  is the longest run of characters other than a space after \<^verbatim>\<open>import \<close>.

  \<^verbatim>\<open>Path.with_suffix('')\<close> removes the suffix of the last part, which is what
  follows its last dot unless that dot is the first or the last character.
\<close>

definition import_re_match :: "string \<Rightarrow> string option" where
  "import_re_match line =
     (if startswith line ''import '' then Some (takeWhile (\<lambda>c. c \<noteq> CHR '' '') (drop 7 line))
      else None)"

definition suffix_of :: "string \<Rightarrow> string" where
  "suffix_of name =
     (case List.find (\<lambda>i. name ! i = CHR ''.'') (rev [0..<length name]) of
        Some i \<Rightarrow> (if 0 < i \<and> i < length name - 1 then drop i name else [])
      | None \<Rightarrow> [])"

definition with_suffix_empty :: "string list \<Rightarrow> string list" where
  "with_suffix_empty parts =
     (case rev parts of
        [] \<Rightarrow> []
      | name # ds \<Rightarrow> rev ds @ [take (length name - length (suffix_of name)) name])"

definition mk_label :: "string list \<Rightarrow> string" where
  "mk_label rel = join_on ''.'' (with_suffix_empty rel)"

definition glob_lean :: "(string list \<times> string) list \<Rightarrow> (string list \<times> string) list" where
  "glob_lean tree = [(rel, txt) \<leftarrow> tree. rel \<noteq> [] \<and> endswith (last rel) ''.lean'']"

definition path_excluded :: "string list \<Rightarrow> py_error + bool" where
  "path_excluded parts =
     (if length parts < 2 then Inl IndexError
      else Inr (parts ! 1 \<in> set [''tactic'', ''meta'']))"

definition scan_line :: "string \<Rightarrow> DiGraph \<Rightarrow> string \<Rightarrow> DiGraph" where
  "scan_line label graph line =
     (case import_re_match line of
        None \<Rightarrow> graph
      | Some imported \<Rightarrow>
          if startswith imported ''tactic.'' \<or> startswith imported ''meta.'' then graph
          else if imported \<notin> set (nodes graph) then
            (if imported @ ''.default'' \<in> set (nodes graph)
             then add_edge graph (imported @ ''.default'') label
             else add_edge graph (''lean_core.'' @ imported) label)
          else add_edge graph imported label)"

fun add_nodes :: "string list \<Rightarrow> (string list \<times> string) list \<Rightarrow> DiGraph \<Rightarrow> py_error + DiGraph" where
  "add_nodes root_path [] graph = Inr graph"
| "add_nodes root_path ((rel, txt) # paths) graph =
     (case path_excluded (root_path @ rel) of
        Inl e \<Rightarrow> Inl e
      | Inr True \<Rightarrow> add_nodes root_path paths graph
      | Inr False \<Rightarrow> add_nodes root_path paths (add_node graph (mk_label rel)))"

fun add_imports :: "string list \<Rightarrow> (string list \<times> string) list \<Rightarrow> DiGraph \<Rightarrow> py_error + DiGraph" where
  "add_imports root_path [] graph = Inr graph"
| "add_imports root_path ((rel, txt) # paths) graph =
     (case path_excluded (root_path @ rel) of
        Inl e \<Rightarrow> Inl e
      | Inr True \<Rightarrow> add_imports root_path paths graph
      | Inr False \<Rightarrow>
          add_imports root_path paths
            (foldl (scan_line (mk_label rel)) graph (split_on (CHR 0x0A) txt)))"

definition parse_imports :: "string list \<Rightarrow> (string list \<times> string) list \<Rightarrow> py_error + DiGraph" where
  "parse_imports root_path tree =
     (case add_nodes root_path (glob_lean tree) DiGraph_new of
        Inl e \<Rightarrow> Inl e
      | Inr graph \<Rightarrow> add_imports root_path (glob_lean tree) graph)"




subsection \<open>Graph functions of the networkx library\<close>

text \<open>
  \<open>reaches g u v\<close>: there is a path of at least one edge from \<open>u\<close> to \<open>v\<close>.
\<close>

definition reaches :: "DiGraph \<Rightarrow> string \<Rightarrow> string \<Rightarrow> bool" where
  "reaches g u v = ((u, v) \<in> (set (edges g))\<^sup>+)"

text \<open>
  Modelled from the spec: \<^verbatim>\<open>nx.transitive_reduction\<close> is a function of the networkx
  library, called at line 278; its body is not part of \<^verbatim>\<open>make_html.py\<close>. The
  spec describes the step as "redundant edges implied by longer paths are removed",
  and as "defined only for directed acyclic graphs": the model keeps the nodes,
  removes every edge \<open>(u, v)\<close> for which some edge \<open>(u, w)\<close> is followed by a path from
  \<open>w\<close> to \<open>v\<close>, and has no result on a graph with a cycle. A graph has a cycle
  if and only if the head of one of its edges reaches itself.
\<close>

definition is_directed_acyclic_graph :: "DiGraph \<Rightarrow> bool" where
  "is_directed_acyclic_graph g = list_all (\<lambda>(u, v). \<not> reaches g v v) (edges g)"

definition implied_by_longer_path :: "DiGraph \<Rightarrow> string \<times> string \<Rightarrow> bool" where
  "implied_by_longer_path g e = list_ex (\<lambda>(a, w). a = fst e \<and> reaches g w (snd e)) (edges g)"

definition transitive_reduction :: "DiGraph \<Rightarrow> DiGraph option" where
  "transitive_reduction g =
     (if is_directed_acyclic_graph g
      then Some (g\<lparr>edges := [e \<leftarrow> edges g. \<not> implied_by_longer_path g e]\<rparr>)
      else None)"

text \<open>The edges that remain, as a relation.\<close>

definition kept :: "('a \<times> 'a) set \<Rightarrow> ('a \<times> 'a) set" where
  "kept E = {(u, v). (u, v) \<in> E \<and> \<not> (\<exists>w. (u, w) \<in> E \<and> (w, v) \<in> E\<^sup>+)}"

text \<open>
  Modelled from the spec: \<^verbatim>\<open>nx.descendants\<close> and \<^verbatim>\<open>nx.ancestors\<close> are functions of
  the networkx library, called at lines 310 and 313. The spec describes them as the
  nodes "reachable forward from this node" and "reachable backward"; the node itself
  is not among them. They are listed in the order of the nodes.
\<close>

definition descendants :: "DiGraph \<Rightarrow> string \<Rightarrow> string list" where
  "descendants g source_node = [n \<leftarrow> nodes g. n \<noteq> source_node \<and> reaches g source_node n]"

definition ancestors :: "DiGraph \<Rightarrow> string \<Rightarrow> string list" where
  "ancestors g source_node = [n \<leftarrow> nodes g. n \<noteq> source_node \<and> reaches g n source_node]"

section \<open>GitHub labels\<close>

text \<open>
  \<^verbatim>\<open>github_labels(pr)\<close>. What the two calls of the \<^verbatim>\<open>try\<close> block
  (\<^verbatim>\<open>get_pull\<close> and \<^verbatim>\<open>get_labels\<close>) do is given: \<open>Inl e\<close> when one of them raises
  \<open>e\<close>, \<open>Inr\<close> the labels otherwise. \<^verbatim>\<open>os.environ\<close> is given by the set of its
  keys. \<^verbatim>\<open>text_color_of_color\<close> computes in floating point and is taken as a
  function of the colour. The result carries the warnings issued.
\<close>

record raw_label =
  raw_name :: string
  raw_color :: string

definition rate_limit_warning :: string where
  "rate_limit_warning =
     ''Unable to fetch PR labels; set `GITHUB_TOKEN` to increase the rate limit''"

definition github_labels ::
  "string set \<Rightarrow> (string \<Rightarrow> string) \<Rightarrow> py_error + raw_label list \<Rightarrow>
   py_error + (string list \<times> label list)" where
  "github_labels environ text_color_of_color fetched =
     (case fetched of
        Inl RateLimitExceededException \<Rightarrow>
          (if ''GITPOD_HOST'' \<in> environ then Inr ([rate_limit_warning], [])
           else Inl RateLimitExceededException)
      | Inl e \<Rightarrow> Inl e
      | Inr raw_labels \<Rightarrow>
          Inr ([], map (\<lambda>l. \<lparr>label_name = raw_name l, label_color = raw_color l,
                             label_text_color = text_color_of_color (raw_color l)\<rparr>)
                     raw_labels))"

section \<open>\<^verbatim>\<open>get_data\<close>\<close>

text \<open>
  What \<^verbatim>\<open>get_data\<close> reads from outside: the environment, the label source, what
  lines 291 to 296 do for an import path (\<open>Inl e\<close> when building the path raises
  \<open>e\<close>, which happens outside the \<^verbatim>\<open>try\<close> block; \<open>Inr None\<close> when the file cannot be
  opened; \<open>Inr (Some n)\<close> for a file of \<open>n\<close> lines), the table returned by
  \<^verbatim>\<open>get_mathlib4_history\<close>, the status table \<^verbatim>\<open>port_status\<close> and the module-level
  \<^verbatim>\<open>graph\<close>.
\<close>

record world =
  os_environ :: "string set"
  get_pull_labels :: "int \<Rightarrow> py_error + raw_label list"
  text_color_of :: "string \<Rightarrow> string"
  count_lines :: "string \<Rightarrow> py_error + nat option"
  mathlib4_history_table :: "(string \<times> string list) list"
  port_status :: "(string \<times> PortStatusEntry) list"
  import_graph :: DiGraph

text \<open>\<^verbatim>\<open>d[k] = v\<close> on a dictionary in insertion order.\<close>

fun dict_set :: "('k \<times> 'v) list \<Rightarrow> 'k \<Rightarrow> 'v \<Rightarrow> ('k \<times> 'v) list" where
  "dict_set [] k v = [(k, v)]"
| "dict_set ((k', v') # kvs) k v =
     (if k' = k then (k, v) # kvs else (k', v') # dict_set kvs k v)"

definition status_labels :: "world \<Rightarrow> PortStatusEntry \<Rightarrow> py_error + label list" where
  "status_labels w f_status =
     (if \<not> ported f_status \<and> truthy_int (mathlib4_pr f_status) then
        (case mathlib4_pr f_status of
           Some pr \<Rightarrow>
             (case github_labels (os_environ w) (text_color_of w) (get_pull_labels w pr) of
                Inl e \<Rightarrow> Inl e
              | Inr (warnings, lbls) \<Rightarrow> Inr lbls)
         | None \<Rightarrow> Inr [])
      else Inr [])"

text \<open>The first loop: one \<^verbatim>\<open>Mathlib3FileData\<close> per status entry.\<close>

fun get_status_information ::
  "world \<Rightarrow> (string \<times> PortStatusEntry) list \<Rightarrow> file_store \<Rightarrow> py_error + file_store" where
  "get_status_information w [] data = Inr data"
| "get_status_information w ((f_import, f_status) # items) data =
     (case count_lines w f_import of
        Inl e \<Rightarrow> Inl e
      | Inr n \<Rightarrow>
          (case status_labels w f_status of
             Inl e \<Rightarrow> Inl e
           | Inr lbls \<Rightarrow>
               get_status_information w items
                 (dict_set data f_import
                    (new_file_data (split_on CHR ''.'' f_import) f_status n lbls))))"

text \<open>
  The second loop: every file that is a node of the graph gets its dependents and
  its dependencies, the descendants and the ancestors that are keys of \<^verbatim>\<open>data\<close>.
  (The loop also stores the file as an attribute of its node; node attributes are
  not part of \<open>DiGraph\<close>.)
\<close>

definition build_import_graph :: "DiGraph \<Rightarrow> file_store \<Rightarrow> file_store" where
  "build_import_graph g data =
     map (\<lambda>(f_import, f_data).
            (f_import,
             if f_import \<in> set (nodes g)
             then f_data\<lparr>dependents :=
                           Some [k \<leftarrow> descendants g f_import. k \<in> set (map fst data)],
                         dependencies :=
                           Some [k \<leftarrow> ancestors g f_import. k \<in> set (map fst data)]\<rparr>
             else f_data))
         data"

text \<open>The third loop: \<^verbatim>\<open>history.get(f_import, [])\<close>.\<close>

definition attach_history :: "(string \<times> string list) list \<Rightarrow> file_store \<Rightarrow> file_store" where
  "attach_history history data =
     map (\<lambda>(f_import, f_data).
            (f_import,
             f_data\<lparr>mathlib4_history :=
                      (case map_of history f_import of Some h \<Rightarrow> h | None \<Rightarrow> [])\<rparr>))
         data"

definition get_data :: "world \<Rightarrow> py_error + file_store" where
  "get_data w =
     (case get_status_information w (port_status w) [] of
        Inl e \<Rightarrow> Inl e
      | Inr data \<Rightarrow>
          Inr (attach_history (mathlib4_history_table w)
                 (build_import_graph (import_graph w) data)))"

section \<open>Commits and links\<close>

text \<open>
  The two repositories \<^verbatim>\<open>git.Repo(mathlib_dir)\<close> and \<^verbatim>\<open>git.Repo(mathlib4_dir)\<close>.
  \<^verbatim>\<open>repo.commit(rev)\<close> is given as a function \<open>repo_commit\<close> that returns the
  \<^verbatim>\<open>hexsha\<close> of the commit, or the exception raised.
\<close>

datatype git_repo = Repo_mathlib_dir | Repo_mathlib4_dir

definition get_repo_by_github_name :: "string \<Rightarrow> py_error + git_repo" where
  "get_repo_by_github_name url =
     (if url = ''leanprover-community/mathlib'' then Inr Repo_mathlib_dir
      else if url = ''leanprover-community/mathlib4'' then Inr Repo_mathlib4_dir
      else Inl (KeyError url))"

definition get_github_name :: "string \<Rightarrow> py_error + string" where
  "get_github_name url =
     (if startswith url ''https://github.com/'' then Inr (drop (length ''https://github.com/'') url)
      else if startswith url ''git@github.com:'' then Inr (drop (length ''git@github.com:'') url)
      else Inl RuntimeError)"

definition commit_exists :: "(git_repo \<Rightarrow> string \<Rightarrow> py_error + string) \<Rightarrow> Source \<Rightarrow> py_error + bool" where
  "commit_exists repo_commit src =
     (case get_repo_by_github_name (repo src) of
        Inl (KeyError k) \<Rightarrow> Inr True
      | Inl e \<Rightarrow> Inl e
      | Inr r \<Rightarrow>
          (case repo_commit r (commit src) of
             Inl ValueError \<Rightarrow> Inr False
           | Inl e \<Rightarrow> Inl e
           | Inr c \<Rightarrow> Inr True))"

text \<open>
  \<^verbatim>\<open>link_sha\<close> takes a \<^verbatim>\<open>git.Commit\<close> (given by the URL of the first remote of its
  repository and its \<^verbatim>\<open>hexsha\<close>) or a \<^verbatim>\<open>Source\<close>. \<^verbatim>\<open>Markup.format\<close> escapes its
  arguments; the escaping function is \<open>escape\<close>. (The last branch of
  \<^verbatim>\<open>link_sha\<close>, the \<^verbatim>\<open>???\<close> mark, is for an argument that is neither.)
\<close>

datatype sha_ref = Commit string string | SourceRef Source

definition link_markup :: "(string \<Rightarrow> string) \<Rightarrow> Source \<Rightarrow> bool \<Rightarrow> string" where
  "link_markup escape sha valid =
     ''<a href=\"https://github.com/'' @ escape (repo sha) @ ''/commit/'' @ escape (commit sha) @ ''\"'' @
     (if \<not> valid
      then '' class=\"font-monospace text-danger\" title=\"commit does not seem to exist!\"''
      else '' class=\"font-monospace\"'') @
     ''>'' @ escape (take 8 (commit sha)) @ ''</a>''"

definition link_sha ::
  "(git_repo \<Rightarrow> string \<Rightarrow> py_error + string) \<Rightarrow> (string \<Rightarrow> string) \<Rightarrow> sha_ref \<Rightarrow> py_error + string" where
  "link_sha repo_commit escape sha =
     (case sha of
        Commit remote_url hexsha \<Rightarrow>
          (case get_github_name remote_url of
             Inl e \<Rightarrow> Inl e
           | Inr url \<Rightarrow> Inr (link_markup escape \<lparr>repo = url, commit = hexsha\<rparr> True))
      | SourceRef src \<Rightarrow>
          (case commit_exists repo_commit src of
             Inl e \<Rightarrow> Inl e
           | Inr valid \<Rightarrow> Inr (link_markup escape src valid)))"

section \<open>The fences of \<^verbatim>\<open>make_out_of_sync\<close>\<close>

text \<open>
  The part of the loop body of \<^verbatim>\<open>make_out_of_sync\<close> that selects the two commits
  (lines 360 to 391). \<open>commit_of\<close> is \<^verbatim>\<open>mathlib_repo.commit\<close>; both \<^verbatim>\<open>try\<close> blocks
  catch every exception. The result is the list of warnings logged and either
  \<open>Skipped\<close> (the \<^verbatim>\<open>continue\<close>) or the base commit and the sync commit with which
  the loop body goes on.
\<close>

datatype fences = Skipped | Fences string string

definition PortState_str :: "PortState \<Rightarrow> string" where
  "PortState_str s =
     (case s of UNPORTED \<Rightarrow> ''PortState.UNPORTED''
      | IN_PROGRESS \<Rightarrow> ''PortState.IN_PROGRESS''
      | PORTED \<Rightarrow> ''PortState.PORTED'')"

definition try_commit :: "(string \<Rightarrow> py_error + string) \<Rightarrow> string \<Rightarrow> string option" where
  "try_commit commit_of h = (case commit_of h of Inl e \<Rightarrow> None | Inr c \<Rightarrow> Some c)"

fun first_real_commit :: "(string \<Rightarrow> py_error + string) \<Rightarrow> string list \<Rightarrow> string option" where
  "first_real_commit commit_of [] = None"
| "first_real_commit commit_of (h # hs) =
     (case try_commit commit_of h of
        Some c \<Rightarrow> Some c
      | None \<Rightarrow> first_real_commit commit_of hs)"

definition make_out_of_sync_fences ::
  "(string \<Rightarrow> py_error + string) \<Rightarrow> string \<Rightarrow> Mathlib3FileData \<Rightarrow> string list \<times> fences" where
  "make_out_of_sync_fences commit_of f_import f_status =
     (case source (status f_status) of
        None \<Rightarrow> ([], Skipped)
      | Some src \<Rightarrow>
          if repo src \<noteq> ''leanprover-community/mathlib'' then ([], Skipped)
          else
            let sync_commit = try_commit commit_of (commit src);
                base_commit =
                  (if mathlib4_history f_status \<noteq> []
                   then first_real_commit commit_of (rev (mathlib4_history f_status))
                   else None)
            in (case (base_commit, sync_commit) of
                  (None, Some s) \<Rightarrow>
                    (if state f_status = PORTED then [''no base commit for: '' @ f_import] else [],
                     Fences s s)
                | (Some b, None) \<Rightarrow>
                    (if state f_status \<noteq> UNPORTED then [''no sync commit for: '' @ f_import] else [],
                     Fences b b)
                | (None, None) \<Rightarrow>
                    (if state f_status \<noteq> UNPORTED
                     then [''no commits at all for: '' @ f_import @ '' '' @
                           PortState_str (state f_status)]
                     else [],
                     Skipped)
                | (Some b, Some s) \<Rightarrow> ([], Fences b s)))"

section \<open>Example data\<close>

definition ex_source :: Source where
  "ex_source = \<lparr>repo = ''leanprover-community/mathlib'', commit = ''0123abcd''\<rparr>"

definition ex_ported :: Mathlib3FileData where
  "ex_ported = new_file_data [''a''] \<lparr>ported = True, mathlib4_pr = Some 42, mathlib4_file = None, source = None\<rparr> None []"

definition ex_in_progress :: Mathlib3FileData where
  "ex_in_progress = new_file_data [''b''] \<lparr>ported = False, mathlib4_pr = Some 42, mathlib4_file = None, source = Some ex_source\<rparr> None []"

definition ex_pr_only :: Mathlib3FileData where
  "ex_pr_only = new_file_data [''c''] \<lparr>ported = False, mathlib4_pr = Some 42, mathlib4_file = None, source = None\<rparr> None []"

definition ex_pr_zero :: Mathlib3FileData where
  "ex_pr_zero = new_file_data [''d''] \<lparr>ported = False, mathlib4_pr = Some 0, mathlib4_file = None, source = Some ex_source\<rparr> None []"

definition ex_store :: file_store where
  "ex_store = [(''a'', ex_ported), (''b'', ex_in_progress), (''c'', ex_pr_only)]"

definition ex_deps_ab :: Mathlib3FileData where
  "ex_deps_ab = ex_pr_only\<lparr>dependencies := Some [''a'', ''b'']\<rparr>"

definition ex_deps_a :: Mathlib3FileData where
  "ex_deps_a = ex_in_progress\<lparr>dependencies := Some [''a'']\<rparr>"

definition ex_deps_abc :: Mathlib3FileData where
  "ex_deps_abc = ex_pr_only\<lparr>dependencies := Some [''a'', ''b'', ''c'']\<rparr>"

definition mathlib_src :: "string list" where
  "mathlib_src = [''build'', ''repos'', ''mathlib'', ''src'']"





definition ex_tree_tactic :: "(string list \<times> string) list" where
  "ex_tree_tactic =
     [([''tactic'', ''basic.lean''], []), ([''tactic'', ''default.lean''], []),
      ([''B.lean''], ''import tactic.basic'' @ [CHR 0x0A] @ ''import tactic'')]"

definition ex_tree_abc :: "(string list \<times> string) list" where
  "ex_tree_abc =
     [([''a.lean''], []), ([''b.lean''], ''import a''),
      ([''c.lean''], ''import b'' @ [CHR 0x0A] @ ''import a'')]"

definition ex_graph_abc :: DiGraph where
  "ex_graph_abc =
     \<lparr>nodes = [''a'', ''b'', ''c''], edges = [(''a'', ''b''), (''b'', ''c''), (''a'', ''c'')]\<rparr>"

text \<open>
  The scenario of three files: \<^verbatim>\<open>c\<close> imports \<^verbatim>\<open>b\<close> imports \<^verbatim>\<open>a\<close>; \<^verbatim>\<open>a\<close> is ported,
  \<^verbatim>\<open>b\<close> is in progress, \<^verbatim>\<open>c\<close> is unported.
\<close>

definition ex_world :: world where
  "ex_world =
     \<lparr>os_environ = {},
      get_pull_labels = (\<lambda>pr. Inr []),
      text_color_of = (\<lambda>c. ''white''),
      count_lines = (\<lambda>p. Inr None),
      mathlib4_history_table = [],
      port_status = [(''a'', status ex_ported), (''b'', status ex_in_progress),
                     (''c'', status ex_pr_only)],
      import_graph = \<lparr>nodes = [''a'', ''b'', ''c''], edges = [(''a'', ''b''), (''b'', ''c'')]\<rparr>\<rparr>"

definition ex_world_rate_limited :: world where
  "ex_world_rate_limited = ex_world\<lparr>get_pull_labels := (\<lambda>pr. Inl RateLimitExceededException)\<rparr>"

definition ex_commit_of :: "string \<Rightarrow> py_error + string" where
  "ex_commit_of h = (if h = ''0123abcd'' then Inr ''0123abcd'' else Inl ValueError)"

definition ex_ported_gone :: Mathlib3FileData where
  "ex_ported_gone =
     new_file_data [''e'']
       \<lparr>ported = True, mathlib4_pr = Some 42, mathlib4_file = None,
        source = Some \<lparr>repo = ''leanprover-community/mathlib'', commit = ''ffff0000''\<rparr>\<rparr> None []"

definition ex_in_progress_history :: Mathlib3FileData where
  "ex_in_progress_history =
     ex_ported_gone\<lparr>mathlib4_history := [''0123abcd'', ''eeee1111'']\<rparr>"

definition ex_foreign_source :: Source where
  "ex_foreign_source = \<lparr>repo = ''leanprover/lean'', commit = ''89abcdef0123''\<rparr>"

section \<open>Properties\<close>

subsection \<open>The port state\<close>

text \<open>
  C1 (counterexample). A status record with \<^verbatim>\<open>ported = False\<close>, the pull-request
  id \<^verbatim>\<open>0\<close> and a source reference has both a pull-request id and a source
  reference present, yet its state is \<^verbatim>\<open>UNPORTED\<close>: Python's \<^verbatim>\<open>and\<close> reads the
  integer \<^verbatim>\<open>0\<close> as false.
\<close>

theorem state_pr_zero_counterexample:
  "\<not> ported (status ex_pr_zero) \<and> mathlib4_pr (status ex_pr_zero) = Some 0 \<and>
   source (status ex_pr_zero) = Some ex_source \<and> state ex_pr_zero = UNPORTED"
  by (simp add: ex_pr_zero_def new_file_data_def state_def truthy_int_def)

text \<open>
  C1 (amended). The state is a function of \<^verbatim>\<open>ported\<close>, \<^verbatim>\<open>mathlib4_pr\<close> and
  \<^verbatim>\<open>source\<close> alone: \<^verbatim>\<open>PORTED\<close> when \<^verbatim>\<open>ported\<close> is true, whatever the other
  fields; \<^verbatim>\<open>IN_PROGRESS\<close> when \<^verbatim>\<open>ported\<close> is false, a pull-request id other than
  \<^verbatim>\<open>0\<close> is present and a source reference is present; \<^verbatim>\<open>UNPORTED\<close> in every
  other case, that is when \<^verbatim>\<open>ported\<close> is false and the pull-request id is absent
  or \<^verbatim>\<open>0\<close>, or the source reference is absent.
\<close>

theorem state_rule:
  "(ported (status f) \<longrightarrow> state f = PORTED) \<and>
   (\<not> ported (status f) \<and> (\<exists>n. mathlib4_pr (status f) = Some n \<and> n \<noteq> 0) \<and>
      (\<exists>s. source (status f) = Some s) \<longrightarrow> state f = IN_PROGRESS) \<and>
   (\<not> ported (status f) \<and> (mathlib4_pr (status f) = None \<or> mathlib4_pr (status f) = Some 0 \<or>
      source (status f) = None) \<longrightarrow> state f = UNPORTED) \<and>
   (\<forall>g. ported (status g) = ported (status f) \<and> mathlib4_pr (status g) = mathlib4_pr (status f) \<and>
      source (status g) = source (status f) \<longrightarrow> state g = state f)"
  by (auto simp add: state_def truthy_int_def truthy_obj_def split: option.splits)

theorem state_rule_witness:
  "ported (status ex_ported) \<and> state ex_ported = PORTED \<and>
   \<not> ported (status ex_in_progress) \<and> mathlib4_pr (status ex_in_progress) = Some 42 \<and>
   source (status ex_in_progress) = Some ex_source \<and> state ex_in_progress = IN_PROGRESS \<and>
   \<not> ported (status ex_pr_only) \<and> mathlib4_pr (status ex_pr_only) = Some 42 \<and>
   source (status ex_pr_only) = None \<and> state ex_pr_only = UNPORTED"
proof -
  have p: "ported (status ex_ported)"
    by (simp add: ex_ported_def new_file_data_def)
  have i: "\<not> ported (status ex_in_progress) \<and> mathlib4_pr (status ex_in_progress) = Some 42 \<and>
      source (status ex_in_progress) = Some ex_source"
    by (simp add: ex_in_progress_def new_file_data_def)
  have u: "\<not> ported (status ex_pr_only) \<and> mathlib4_pr (status ex_pr_only) = Some 42 \<and>
      source (status ex_pr_only) = None"
    by (simp add: ex_pr_only_def new_file_data_def)
  from p have "state ex_ported = PORTED"
    using state_rule [of ex_ported] by blast
  moreover from i have "state ex_in_progress = IN_PROGRESS"
    using state_rule [of ex_in_progress] by simp
  moreover from u have "state ex_pr_only = UNPORTED"
    using state_rule [of ex_pr_only] by blast
  ultimately show ?thesis using p i u by blast
qed

subsection \<open>The sort key\<close>

lemma ex_states:
  "state_at ex_store ''a'' = Some PORTED"
  "state_at ex_store ''b'' = Some IN_PROGRESS"
  "state_at ex_store ''c'' = Some UNPORTED"
  by (simp_all add: state_at_def ex_store_def ex_ported_def ex_in_progress_def ex_pr_only_def
      new_file_data_def state_def truthy_int_def truthy_obj_def)

lemma ex_dep_counts:
  "dep_counts ex_store ex_pr_only = None"
  "dep_counts ex_store ex_deps_a = Some (0, 0, 1)"
  "dep_counts ex_store ex_deps_ab = Some (0, 1, 1)"
  "dep_counts ex_store ex_deps_abc = Some (1, 1, 1)"
  by (simp_all add: dep_counts_def ex_states ex_deps_a_def ex_deps_ab_def ex_deps_abc_def
      ex_pr_only_def ex_in_progress_def new_file_data_def)

lemma sort_key_computed:
  "dep_counts data f = Some (u, i, p) \<Longrightarrow>
   dep_counts_sort_key data f = int u * 10000 * 5 + int i * 10000"
  by (simp add: dep_counts_sort_key_def IN_PROGRESS_EQUIV_UNPORTED_def)

lemma sort_key_unknown:
  "dep_counts data f = None \<Longrightarrow> dep_counts_sort_key data f = sys_maxsize"
  by (simp add: dep_counts_sort_key_def)

lemma filter_disjoint_length:
  assumes "\<And>x. \<not> (P x \<and> Q x)"
  shows "length (filter P xs) + length (filter Q xs) \<le> length xs"
  using assms by (induction xs) auto

lemma dep_counts_bounded:
  assumes "dep_counts data g = Some (u, i, p)"
  shows "\<exists>deps. dependencies g = Some deps \<and> u + i \<le> length deps"
proof -
  from assms obtain deps where d: "dependencies g = Some deps"
    and u: "u = length [x \<leftarrow> deps. state_at data x = Some UNPORTED]"
    and i: "i = length [x \<leftarrow> deps. state_at data x = Some IN_PROGRESS]"
    by (auto simp add: dep_counts_def split: option.splits)
  have "u + i \<le> length deps"
    unfolding u i by (rule filter_disjoint_length) simp
  with d show ?thesis by simp
qed

text \<open>
  C5. With computed counts \<open>(u, i, p)\<close> the key is \<open>u * 10000 * 5 + i * 10000\<close>.
  Without dependency data the key is \<^verbatim>\<open>sys.maxsize\<close>, and no file has a larger key:
  the keys are unbounded integers, a file holds its dependencies in a list, and a
  key above \<^verbatim>\<open>sys.maxsize\<close> needs a list of at least 184467440737096 dependencies,
  more than a list of distinct tracked files can hold. The statement is for every
  file with fewer dependencies.
\<close>

theorem dep_counts_sort_key_rule:
  "(\<forall>u i p. dep_counts data f = Some (u, i, p) \<longrightarrow>
      dep_counts_sort_key data f = int u * 10000 * 5 + int i * 10000) \<and>
   (dep_counts data f = None \<longrightarrow>
      dep_counts_sort_key data f = sys_maxsize \<and>
      (\<forall>data' (g :: Mathlib3FileData).
         (\<forall>deps. dependencies g = Some deps \<longrightarrow> length deps < 184467440737096) \<longrightarrow>
         dep_counts_sort_key data' g \<le> dep_counts_sort_key data f))"
proof (intro conjI allI impI)
  fix u i p
  assume "dep_counts data f = Some (u, i, p)"
  then show "dep_counts_sort_key data f = int u * 10000 * 5 + int i * 10000"
    by (rule sort_key_computed)
next
  assume "dep_counts data f = None"
  then show "dep_counts_sort_key data f = sys_maxsize"
    by (rule sort_key_unknown)
next
  fix data' and g :: Mathlib3FileData
  assume none: "dep_counts data f = None"
    and feasible: "\<forall>deps. dependencies g = Some deps \<longrightarrow> length deps < 184467440737096"
  show "dep_counts_sort_key data' g \<le> dep_counts_sort_key data f"
  proof (cases "dep_counts data' g")
    case None
    with none show ?thesis by (simp add: sort_key_unknown)
  next
    case (Some c)
    obtain u i p where c: "c = (u, i, p)" by (cases c)
    from Some c have k: "dep_counts data' g = Some (u, i, p)" by simp
    from dep_counts_bounded [OF k] feasible have "u + i < 184467440737096" by auto
    then have "int u * 10000 * 5 + int i * 10000 \<le> 9223372036854750000" by linarith
    with none k show ?thesis
      by (simp add: sort_key_unknown sort_key_computed sys_maxsize_def)
  qed
qed

theorem dep_counts_sort_key_rule_witness:
  "dep_counts ex_store ex_deps_ab = Some (0, 1, 1) \<and>
   dep_counts_sort_key ex_store ex_deps_ab = 10000 \<and>
   dep_counts ex_store ex_pr_only = None \<and>
   dep_counts_sort_key ex_store ex_pr_only = 2 ^ 63 - 1 \<and>
   dependencies ex_deps_abc = Some [''a'', ''b'', ''c''] \<and>
   dep_counts_sort_key ex_store ex_deps_abc \<le> dep_counts_sort_key ex_store ex_pr_only"
proof -
  note r1 = dep_counts_sort_key_rule [of ex_store ex_deps_ab, THEN conjunct1, rule_format,
      OF ex_dep_counts(3)]
  note r2 = dep_counts_sort_key_rule [of ex_store ex_pr_only, THEN conjunct2, THEN mp,
      OF ex_dep_counts(1)]
  have d: "dependencies ex_deps_abc = Some [''a'', ''b'', ''c'']"
    by (simp add: ex_deps_abc_def)
  then have "\<forall>deps. dependencies ex_deps_abc = Some deps \<longrightarrow> length deps < 184467440737096"
    by simp
  then have "dep_counts_sort_key ex_store ex_deps_abc \<le> dep_counts_sort_key ex_store ex_pr_only"
    by (rule r2 [THEN conjunct2, THEN spec, THEN spec, THEN mp])
  with r1 r2 [THEN conjunct1] d show ?thesis
    by (simp add: ex_dep_counts sys_maxsize_def)
qed

text \<open>
  C6. The key does not decrease when the unported count grows with the in-progress
  count fixed, nor when the in-progress count grows with the unported count fixed;
  a file with no unported and no in-progress dependency has a strictly smaller key
  than a file with at least one of either.
\<close>

theorem dep_counts_sort_key_monotone:
  "(dep_counts data f = Some (u, i, p) \<and> dep_counts data' g = Some (u', i, p') \<and> u \<le> u' \<longrightarrow>
      dep_counts_sort_key data f \<le> dep_counts_sort_key data' g) \<and>
   (dep_counts data f = Some (u, i, p) \<and> dep_counts data' g = Some (u, i', p') \<and> i \<le> i' \<longrightarrow>
      dep_counts_sort_key data f \<le> dep_counts_sort_key data' g) \<and>
   (dep_counts data f = Some (0, 0, p) \<and> dep_counts data' g = Some (u', i', p') \<and>
      (0 < u' \<or> 0 < i') \<longrightarrow>
      dep_counts_sort_key data f < dep_counts_sort_key data' g)"
  by (auto simp add: sort_key_computed)

theorem dep_counts_sort_key_monotone_witness:
  "dep_counts ex_store ex_deps_ab = Some (0, 1, 1) \<and>
   dep_counts ex_store ex_deps_abc = Some (1, 1, 1) \<and>
   dep_counts_sort_key ex_store ex_deps_ab \<le> dep_counts_sort_key ex_store ex_deps_abc \<and>
   dep_counts ex_store ex_deps_a = Some (0, 0, 1) \<and>
   dep_counts_sort_key ex_store ex_deps_a \<le> dep_counts_sort_key ex_store ex_deps_ab \<and>
   dep_counts_sort_key ex_store ex_deps_a < dep_counts_sort_key ex_store ex_deps_ab"
proof -
  have "dep_counts_sort_key ex_store ex_deps_ab \<le> dep_counts_sort_key ex_store ex_deps_abc"
    using dep_counts_sort_key_monotone [where data = ex_store and f = ex_deps_ab and u = 0
        and i = 1 and p = 1 and data' = ex_store and g = ex_deps_abc and u' = 1 and p' = 1,
        THEN conjunct1] ex_dep_counts by simp
  moreover have "dep_counts_sort_key ex_store ex_deps_a \<le> dep_counts_sort_key ex_store ex_deps_ab"
    using dep_counts_sort_key_monotone [where data = ex_store and f = ex_deps_a and u = 0
        and i = 0 and p = 1 and data' = ex_store and g = ex_deps_ab and i' = 1 and p' = 1,
        THEN conjunct2, THEN conjunct1] ex_dep_counts by simp
  moreover have "dep_counts_sort_key ex_store ex_deps_a < dep_counts_sort_key ex_store ex_deps_ab"
    using dep_counts_sort_key_monotone [where data = ex_store and f = ex_deps_a
        and p = 1 and data' = ex_store and g = ex_deps_ab and u' = 0 and i' = 1 and p' = 1,
        THEN conjunct2, THEN conjunct2] ex_dep_counts by simp
  ultimately show ?thesis using ex_dep_counts by blast
qed

subsection \<open>Import resolution\<close>





lemma scan_line_no_import: "import_re_match line = None \<Longrightarrow> scan_line label graph line = graph"
  by (simp add: scan_line_def)

lemma scan_line_excluded_import:
  "import_re_match line = Some tok \<Longrightarrow> startswith tok ''tactic.'' \<or> startswith tok ''meta.'' \<Longrightarrow>
   scan_line label graph line = graph"
  by (simp add: scan_line_def)



lemma path_excluded_one_part_root:
  "path_excluded ([root] @ seg # rest) = Inr (seg = ''tactic'' \<or> seg = ''meta'')"
  by (simp add: path_excluded_def)


subsection \<open>The edges of the import graph\<close>





















subsection \<open>Excluded categories\<close>

text \<open>
  C4. The exclusion test reads \<^verbatim>\<open>path.parts[1]\<close> of the path that \<^verbatim>\<open>glob\<close>
  yields, which starts with the parts of \<^verbatim>\<open>root_path\<close>. With the root
  \<^verbatim>\<open>build/repos/mathlib/src\<close> of line 277 that part is \<^verbatim>\<open>repos\<close> for every file, so
  the file \<^verbatim>\<open>tactic/basic.lean\<close> becomes the node \<^verbatim>\<open>tactic.basic\<close>; and the import
  \<^verbatim>\<open>tactic\<close> of another file is then resolved to the node \<^verbatim>\<open>tactic.default\<close>.
\<close>

theorem parse_imports_keeps_tactic_files:
  "parse_imports mathlib_src ex_tree_tactic =
     Inr \<lparr>nodes = [''tactic.basic'', ''tactic.default'', ''B''],
          edges = [(''tactic.default'', ''B'')]\<rparr>"
  by code_simp

subsection \<open>Transitive reduction\<close>

lemma is_dag_iff_acyclic:
  "is_directed_acyclic_graph g \<longleftrightarrow> acyclic (set (edges g))"
proof
  assume dag: "is_directed_acyclic_graph g"
  show "acyclic (set (edges g))"
    unfolding acyclic_def
  proof (intro allI notI)
    fix x assume "(x, x) \<in> (set (edges g))\<^sup>+"
    then obtain y where "(x, y) \<in> (set (edges g))\<^sup>*" and e: "(y, x) \<in> set (edges g)"
      by (meson tranclD2)
    then have "(x, x) \<in> (set (edges g))\<^sup>+" using \<open>(x, x) \<in> (set (edges g))\<^sup>+\<close> by simp
    with dag e show False
      by (auto simp: is_directed_acyclic_graph_def list_all_iff reaches_def)
  qed
next
  assume "acyclic (set (edges g))"
  then show "is_directed_acyclic_graph g"
    by (auto simp: is_directed_acyclic_graph_def list_all_iff reaches_def acyclic_def)
qed

lemma kept_subset: "kept E \<subseteq> E"
  by (auto simp: kept_def)

lemma path_through_edges:
  assumes "(w, v) \<in> E\<^sup>+"
    and "\<And>x y. (x, y) \<in> E \<Longrightarrow> (w, x) \<in> E\<^sup>* \<Longrightarrow> (y, v) \<in> E\<^sup>* \<Longrightarrow> (x, y) \<in> R\<^sup>+"
  shows "(w, v) \<in> R\<^sup>+"
  using assms
proof (induction rule: trancl_induct)
  case (base y)
  then show ?case by blast
next
  case (step y z)
  have "(w, y) \<in> R\<^sup>+"
  proof (rule step.IH)
    fix a b assume "(a, b) \<in> E" "(w, a) \<in> E\<^sup>*" "(b, y) \<in> E\<^sup>*"
    with step.hyps(2) show "(a, b) \<in> R\<^sup>+"
      by (intro step.prems) (auto intro: rtrancl_into_rtrancl)
  qed
  moreover have "(y, z) \<in> R\<^sup>+"
    using step.hyps by (intro step.prems) (auto intro: trancl_into_rtrancl)
  ultimately show ?case by (rule trancl_trans)
qed

lemma edge_in_kept_trancl:
  assumes fin: "finite E" and acyc: "acyclic E"
  shows "(u, v) \<in> E \<Longrightarrow> (u, v) \<in> (kept E)\<^sup>+"
proof -
  have wf1: "wf (E\<^sup>+)"
    using fin acyc by (intro wf_trancl finite_acyclic_wf)
  have wf2: "wf ((E\<inverse>)\<^sup>+)"
    using fin acyc by (intro wf_trancl finite_acyclic_wf_converse)
  have wf: "wf (E\<^sup>+ <*lex*> (E\<inverse>)\<^sup>+)"
    using wf1 wf2 by (rule wf_lex_prod)
  have "\<forall>u v. p = (v, u) \<longrightarrow> (u, v) \<in> E \<longrightarrow> (u, v) \<in> (kept E)\<^sup>+" for p
  proof (induction p rule: wf_induct_rule [OF wf])
    case (1 p)
    show ?case
    proof (intro allI impI)
      fix u v assume p: "p = (v, u)" and uv: "(u, v) \<in> E"
      show "(u, v) \<in> (kept E)\<^sup>+"
      proof (cases "(u, v) \<in> kept E")
        case True
        then show ?thesis by blast
      next
        case False
        with uv obtain w where uw: "(u, w) \<in> E" and wv: "(w, v) \<in> E\<^sup>+"
          by (auto simp: kept_def)
        have "((w, u), p) \<in> E\<^sup>+ <*lex*> (E\<inverse>)\<^sup>+"
          using wv p by simp
        with uw have 1: "(u, w) \<in> (kept E)\<^sup>+"
          using "1.IH" by blast
        have 2: "(w, v) \<in> (kept E)\<^sup>+"
          using wv
        proof (rule path_through_edges)
          fix x y assume xy: "(x, y) \<in> E" and wx: "(w, x) \<in> E\<^sup>*" and yv: "(y, v) \<in> E\<^sup>*"
          from uw wx have ux: "(u, x) \<in> E\<^sup>+" by (rule rtrancl_into_trancl2)
          then have "(x, u) \<in> (E\<inverse>)\<^sup>+" by (simp add: trancl_converse)
          moreover from yv have "y = v \<or> (y, v) \<in> E\<^sup>+" by (auto simp: rtrancl_eq_or_trancl)
          ultimately have "((y, x), p) \<in> E\<^sup>+ <*lex*> (E\<inverse>)\<^sup>+"
            using p by auto
          with xy show "(x, y) \<in> (kept E)\<^sup>+"
            using "1.IH" by blast
        qed
        from 1 2 show ?thesis by (rule trancl_trans)
      qed
    qed
  qed
  then show "(u, v) \<in> E \<Longrightarrow> (u, v) \<in> (kept E)\<^sup>+" by blast
qed

lemma kept_trancl_eq:
  assumes "finite E" "acyclic E"
  shows "(kept E)\<^sup>+ = E\<^sup>+"
proof
  show "(kept E)\<^sup>+ \<subseteq> E\<^sup>+"
    by (rule trancl_mono_subset) (rule kept_subset)
next
  have "E \<subseteq> (kept E)\<^sup>+"
    using edge_in_kept_trancl [OF assms] by auto
  then have "E\<^sup>+ \<subseteq> ((kept E)\<^sup>+)\<^sup>+" by (rule trancl_mono_subset)
  then show "E\<^sup>+ \<subseteq> (kept E)\<^sup>+" by simp
qed

lemma kept_edge_needed:
  assumes "(u, v) \<in> kept E"
  shows "(u, v) \<notin> (kept E - {(u, v)})\<^sup>+"
proof
  assume "(u, v) \<in> (kept E - {(u, v)})\<^sup>+"
  then show False
  proof (rule converse_tranclE)
    assume "(u, v) \<in> kept E - {(u, v)}"
    then show False by simp
  next
    fix w assume uw: "(u, w) \<in> kept E - {(u, v)}" and wv: "(w, v) \<in> (kept E - {(u, v)})\<^sup>+"
    from uw have "(u, w) \<in> E" by (auto simp: kept_def)
    moreover have "kept E - {(u, v)} \<subseteq> E" using kept_subset [of E] by blast
    then have "(w, v) \<in> E\<^sup>+" using wv trancl_mono by blast
    ultimately show False using assms by (auto simp: kept_def)
  qed
qed

lemma set_reduced_edges:
  "set [e \<leftarrow> edges g. \<not> implied_by_longer_path g e] = kept (set (edges g))"
  by (auto simp: kept_def implied_by_longer_path_def list_ex_iff reaches_def)

text \<open>
  C2. On an acyclic graph the transitive reduction exists, has the nodes of the
  graph and a subset of its edges; a node reaches another one in the reduced graph
  if and only if it does in the graph; and removing any edge of the reduced graph
  changes reachability for some pair (the end points of the edge).
\<close>

theorem transitive_reduction_correct:
  assumes "acyclic (set (edges g))"
  shows "\<exists>r. transitive_reduction g = Some r \<and> nodes r = nodes g \<and>
           set (edges r) \<subseteq> set (edges g) \<and>
           (\<forall>u v. reaches r u v \<longleftrightarrow> reaches g u v) \<and>
           (\<forall>e \<in> set (edges r). \<exists>u v. reaches g u v \<and>
              \<not> reaches (r\<lparr>edges := removeAll e (edges r)\<rparr>) u v)"
proof -
  let ?r = "g\<lparr>edges := [e \<leftarrow> edges g. \<not> implied_by_longer_path g e]\<rparr>"
  have tr: "transitive_reduction g = Some ?r"
    using assms by (simp add: transitive_reduction_def is_dag_iff_acyclic)
  have er: "set (edges ?r) = kept (set (edges g))"
    using set_reduced_edges [of g] by simp
  have same: "(set (edges ?r))\<^sup>+ = (set (edges g))\<^sup>+"
    unfolding er using assms by (intro kept_trancl_eq) simp_all
  have minimal: "\<exists>u v. reaches g u v \<and> \<not> reaches (?r\<lparr>edges := removeAll e (edges ?r)\<rparr>) u v"
    if "e \<in> set (edges ?r)" for e
  proof -
    obtain u v where e: "e = (u, v)" by (cases e)
    from that have "e \<in> kept (set (edges g))" unfolding er .
    then have k: "(u, v) \<in> kept (set (edges g))" unfolding e .
    then have "(u, v) \<in> set (edges g)" using kept_subset by blast
    then have "reaches g u v" by (auto simp: reaches_def)
    moreover have "\<not> reaches (?r\<lparr>edges := removeAll e (edges ?r)\<rparr>) u v"
      using kept_edge_needed [OF k] unfolding reaches_def e er [symmetric] by simp
    ultimately show ?thesis by blast
  qed
  have "nodes ?r = nodes g" by simp
  moreover have "set (edges ?r) \<subseteq> set (edges g)" using er kept_subset by blast
  moreover have "\<forall>u v. reaches ?r u v \<longleftrightarrow> reaches g u v"
    using same by (simp add: reaches_def)
  ultimately show ?thesis using tr minimal by blast
qed

theorem transitive_reduction_correct_witness:
  "parse_imports mathlib_src ex_tree_abc = Inr ex_graph_abc \<and>
   acyclic (set (edges ex_graph_abc)) \<and>
   (\<exists>r. transitive_reduction ex_graph_abc = Some r \<and>
        edges r = [(''a'', ''b''), (''b'', ''c'')] \<and>
        (\<forall>u v. reaches r u v \<longleftrightarrow> reaches ex_graph_abc u v))"
proof -
  have p: "parse_imports mathlib_src ex_tree_abc = Inr ex_graph_abc"
    by code_simp
  have "is_directed_acyclic_graph ex_graph_abc"
    by code_simp
  then have a: "acyclic (set (edges ex_graph_abc))"
    by (simp add: is_dag_iff_acyclic)
  have e: "transitive_reduction ex_graph_abc =
      Some \<lparr>nodes = [''a'', ''b'', ''c''], edges = [(''a'', ''b''), (''b'', ''c'')]\<rparr>"
    by code_simp
  from transitive_reduction_correct [OF a] obtain r
    where "transitive_reduction ex_graph_abc = Some r"
      and "\<forall>u v. reaches r u v \<longleftrightarrow> reaches ex_graph_abc u v"
    by blast
  with p a e show ?thesis by simp
qed

subsection \<open>Dependencies and dependents\<close>

lemma map_of_map_keyed:
  "map_of (map (\<lambda>(k, d). (k, f k d)) xs) k = map_option (f k) (map_of xs k)"
  by (induction xs) auto

lemma keys_map_keyed:
  "map fst (map (\<lambda>(k, d). (k, f k d)) xs) = map fst xs"
  by (induction xs) auto

lemma set_descendants:
  "set (descendants g s) = {n \<in> set (nodes g). n \<noteq> s \<and> reaches g s n}"
  by (auto simp add: descendants_def)

lemma set_ancestors:
  "set (ancestors g s) = {n \<in> set (nodes g). n \<noteq> s \<and> reaches g n s}"
  by (auto simp add: ancestors_def)

lemma build_import_graph_lookup:
  assumes "map_of (build_import_graph g data) k = Some f" and "k \<in> set (nodes g)"
  shows "dependents f = Some [n \<leftarrow> descendants g k. n \<in> set (map fst data)] \<and>
         dependencies f = Some [n \<leftarrow> ancestors g k. n \<in> set (map fst data)]"
proof -
  let ?attach = "\<lambda>k d. if k \<in> set (nodes g)
      then d\<lparr>dependents := Some [n \<leftarrow> descendants g k. n \<in> set (map fst data)],
             dependencies := Some [n \<leftarrow> ancestors g k. n \<in> set (map fst data)]\<rparr>
      else d"
  have "build_import_graph g data = map (\<lambda>(k, d). (k, ?attach k d)) data"
    by (simp add: build_import_graph_def)
  then have "map_of (build_import_graph g data) k = map_option (?attach k) (map_of data k)"
    by (simp only: map_of_map_keyed)
  with assms show ?thesis by auto
qed

lemma attach_history_lookup:
  assumes "map_of (attach_history h data) k = Some f"
  shows "\<exists>f0. map_of data k = Some f0 \<and> dependents f = dependents f0 \<and>
           dependencies f = dependencies f0"
proof -
  let ?hist = "\<lambda>k d. d\<lparr>mathlib4_history := (case map_of h k of Some x \<Rightarrow> x | None \<Rightarrow> [])\<rparr>"
  have "attach_history h data = map (\<lambda>(k, d). (k, ?hist k d)) data"
    by (simp add: attach_history_def)
  then have "map_of (attach_history h data) k = map_option (?hist k) (map_of data k)"
    by (simp only: map_of_map_keyed)
  with assms show ?thesis by auto
qed

lemma get_data_keys:
  assumes "get_data w = Inr data"
  shows "\<exists>data0. get_status_information w (port_status w) [] = Inr data0 \<and>
           map fst data = map fst data0 \<and>
           data = attach_history (mathlib4_history_table w) (build_import_graph (import_graph w) data0)"
proof -
  from assms obtain data0 where d0: "get_status_information w (port_status w) [] = Inr data0"
    and d: "data = attach_history (mathlib4_history_table w)
        (build_import_graph (import_graph w) data0)"
    by (auto simp add: get_data_def split: sum.splits)
  have "map fst data = map fst data0"
    unfolding d attach_history_def build_import_graph_def by (simp only: keys_map_keyed)
  with d0 d show ?thesis by blast
qed

text \<open>
  C7. In the result of \<^verbatim>\<open>get_data\<close>, for tracked files \<open>u\<close> and \<open>v\<close> that are both
  nodes of the graph: the dependents and the dependencies are computed,
  \<open>v\<close> is a dependency of \<open>u\<close> if and only if \<open>u\<close> is a dependent of \<open>v\<close>, the
  dependents of \<open>v\<close> are the tracked nodes other than \<open>v\<close> that \<open>v\<close> reaches, and the
  dependencies of \<open>u\<close> are the tracked nodes other than \<open>u\<close> that reach \<open>u\<close>.
\<close>

theorem dependencies_dependents_consistent:
  assumes "get_data w = Inr data"
    and "map_of data u = Some fu" and "map_of data v = Some fv"
    and "u \<in> set (nodes (import_graph w))" and "v \<in> set (nodes (import_graph w))"
  shows "\<exists>deps dpts.
           dependencies fu = Some deps \<and> dependents fv = Some dpts \<and>
           (v \<in> set deps \<longleftrightarrow> u \<in> set dpts) \<and>
           set dpts = {k \<in> set (nodes (import_graph w)) \<inter> set (map fst data).
                         k \<noteq> v \<and> reaches (import_graph w) v k} \<and>
           set deps = {k \<in> set (nodes (import_graph w)) \<inter> set (map fst data).
                         k \<noteq> u \<and> reaches (import_graph w) k u}"
proof -
  let ?g = "import_graph w"
  from get_data_keys [OF assms(1)] obtain data0
    where keys: "map fst data = map fst data0"
      and d: "data = attach_history (mathlib4_history_table w) (build_import_graph ?g data0)"
    by blast
  from assms(2) obtain fu0 where "map_of (build_import_graph ?g data0) u = Some fu0"
      and "dependencies fu = dependencies fu0"
    unfolding d using attach_history_lookup by blast
  with assms(4) have deps: "dependencies fu = Some [n \<leftarrow> ancestors ?g u. n \<in> set (map fst data)]"
    using build_import_graph_lookup keys by simp
  from assms(3) obtain fv0 where "map_of (build_import_graph ?g data0) v = Some fv0"
      and "dependents fv = dependents fv0"
    unfolding d using attach_history_lookup by blast
  with assms(5) have dpts: "dependents fv = Some [n \<leftarrow> descendants ?g v. n \<in> set (map fst data)]"
    using build_import_graph_lookup keys by simp
  have tracked: "u \<in> set (map fst data)" "v \<in> set (map fst data)"
    using assms(2,3) by (auto dest: map_of_SomeD intro: rev_image_eqI)
  have "v \<in> set [n \<leftarrow> ancestors ?g u. n \<in> set (map fst data)] \<longleftrightarrow>
        u \<in> set [n \<leftarrow> descendants ?g v. n \<in> set (map fst data)]"
    using tracked assms(4,5) by (auto simp add: set_ancestors set_descendants)
  moreover have "set [n \<leftarrow> descendants ?g v. n \<in> set (map fst data)] =
      {k \<in> set (nodes ?g) \<inter> set (map fst data). k \<noteq> v \<and> reaches ?g v k}"
    by (auto simp add: set_descendants)
  moreover have "set [n \<leftarrow> ancestors ?g u. n \<in> set (map fst data)] =
      {k \<in> set (nodes ?g) \<inter> set (map fst data). k \<noteq> u \<and> reaches ?g k u}"
    by (auto simp add: set_ancestors)
  ultimately show ?thesis using deps dpts by blast
qed

theorem dependencies_dependents_consistent_witness:
  "\<exists>data fc fa.
     get_data ex_world = Inr data \<and> map_of data ''c'' = Some fc \<and> map_of data ''a'' = Some fa \<and>
     ''c'' \<in> set (nodes (import_graph ex_world)) \<and> ''a'' \<in> set (nodes (import_graph ex_world)) \<and>
     dependencies fc = Some [''a'', ''b''] \<and> dependents fa = Some [''b'', ''c''] \<and>
     dep_counts data fc = Some (0, 1, 1) \<and>
     (\<exists>deps dpts. dependencies fc = Some deps \<and> dependents fa = Some dpts \<and>
        (''a'' \<in> set deps \<longleftrightarrow> ''c'' \<in> set dpts))"
proof -
  have "case get_data ex_world of
          Inl e \<Rightarrow> False
        | Inr data \<Rightarrow>
            (case (map_of data ''c'', map_of data ''a'') of
               (Some fc, Some fa) \<Rightarrow>
                 dependencies fc = Some [''a'', ''b''] \<and> dependents fa = Some [''b'', ''c''] \<and>
                 dep_counts data fc = Some (0, 1, 1)
             | _ \<Rightarrow> False)"
    by code_simp
  then obtain data fc fa where g: "get_data ex_world = Inr data"
    and c: "map_of data ''c'' = Some fc" and a: "map_of data ''a'' = Some fa"
    and v: "dependencies fc = Some [''a'', ''b'']" "dependents fa = Some [''b'', ''c'']"
      "dep_counts data fc = Some (0, 1, 1)"
    by (auto split: sum.splits option.splits)
  have nc: "''c'' \<in> set (nodes (import_graph ex_world))"
    and na: "''a'' \<in> set (nodes (import_graph ex_world))"
    by (simp_all add: ex_world_def)
  from dependencies_dependents_consistent [OF g c a nc na]
  have "\<exists>deps dpts. dependencies fc = Some deps \<and> dependents fa = Some dpts \<and>
      (''a'' \<in> set deps \<longleftrightarrow> ''c'' \<in> set dpts)"
    by blast
  with g c a nc na v show ?thesis by blast
qed

subsection \<open>The fences of the reconciler\<close>

lemma try_commit_None_iff: "try_commit commit_of h = None \<longleftrightarrow> (\<exists>e. commit_of h = Inl e)"
  by (cases "commit_of h") (simp_all add: try_commit_def)

lemma first_real_commit_None_iff:
  "first_real_commit commit_of hs = None \<longleftrightarrow> (\<forall>h \<in> set hs. try_commit commit_of h = None)"
  by (induction hs) (auto split: option.splits)

lemma base_commit_guard:
  "(if hist \<noteq> [] then first_real_commit commit_of (rev hist) else None) =
   first_real_commit commit_of (rev hist)"
  by simp

text \<open>
  C8. For a tracked file with a source reference in the original repository, with
  the base commit looked up in the history (latest entry first) and the sync commit
  looked up from the source reference: if only the base commit is missing, the sync
  commit takes its place, with a warning when the file is \<^verbatim>\<open>PORTED\<close>; if only the
  sync commit is missing, the base commit takes its place, with a warning unless the
  file is \<^verbatim>\<open>UNPORTED\<close>; if both are missing the file is skipped, with a warning
  unless the file is \<^verbatim>\<open>UNPORTED\<close>; if both are found nothing is logged.
\<close>

theorem make_out_of_sync_fences_rule:
  assumes "source (status f) = Some src" and "repo src = ''leanprover-community/mathlib''"
  shows "(first_real_commit commit_of (rev (mathlib4_history f)) = None \<and>
          try_commit commit_of (commit src) = Some s \<longrightarrow>
            make_out_of_sync_fences commit_of imp f =
              (if state f = PORTED then [''no base commit for: '' @ imp] else [], Fences s s)) \<and>
         (first_real_commit commit_of (rev (mathlib4_history f)) = Some b \<and>
          try_commit commit_of (commit src) = None \<longrightarrow>
            make_out_of_sync_fences commit_of imp f =
              (if state f \<noteq> UNPORTED then [''no sync commit for: '' @ imp] else [], Fences b b)) \<and>
         (first_real_commit commit_of (rev (mathlib4_history f)) = None \<and>
          try_commit commit_of (commit src) = None \<longrightarrow>
            make_out_of_sync_fences commit_of imp f =
              (if state f \<noteq> UNPORTED
               then [''no commits at all for: '' @ imp @ '' '' @ PortState_str (state f)]
               else [], Skipped)) \<and>
         (first_real_commit commit_of (rev (mathlib4_history f)) = Some b \<and>
          try_commit commit_of (commit src) = Some s \<longrightarrow>
            make_out_of_sync_fences commit_of imp f = ([], Fences b s))"
  using assms
  by (simp add: make_out_of_sync_fences_def Let_def base_commit_guard del: rev_is_Nil_conv)

theorem make_out_of_sync_fences_rule_witness:
  "make_out_of_sync_fences ex_commit_of ''b'' ex_in_progress = ([], Fences ''0123abcd'' ''0123abcd'') \<and>
   make_out_of_sync_fences ex_commit_of ''e'' ex_in_progress_history =
     ([''no sync commit for: e''], Fences ''0123abcd'' ''0123abcd'') \<and>
   make_out_of_sync_fences ex_commit_of ''e'' ex_ported_gone =
     ([''no commits at all for: e PortState.PORTED''], Skipped)"
proof -
  have s1: "source (status ex_in_progress) = Some ex_source"
    and r1: "repo ex_source = ''leanprover-community/mathlib''"
    by (simp_all add: ex_in_progress_def new_file_data_def ex_source_def)
  have b1: "first_real_commit ex_commit_of (rev (mathlib4_history ex_in_progress)) = None"
    and c1: "try_commit ex_commit_of (commit ex_source) = Some ''0123abcd''"
    and st1: "state ex_in_progress = IN_PROGRESS"
    by (simp_all add: ex_in_progress_def new_file_data_def ex_source_def ex_commit_of_def
        try_commit_def state_def truthy_int_def truthy_obj_def)
  have 1: "make_out_of_sync_fences ex_commit_of ''b'' ex_in_progress =
      ([], Fences ''0123abcd'' ''0123abcd'')"
    using make_out_of_sync_fences_rule [OF s1 r1, where commit_of = ex_commit_of
        and imp = "''b''" and s = "''0123abcd''", THEN conjunct1] b1 c1 st1
    by simp
  let ?src = "\<lparr>repo = ''leanprover-community/mathlib'', commit = ''ffff0000''\<rparr>"
  have s2: "source (status ex_in_progress_history) = Some ?src"
    and s3: "source (status ex_ported_gone) = Some ?src"
    and r2: "repo ?src = ''leanprover-community/mathlib''"
    by (simp_all add: ex_in_progress_history_def ex_ported_gone_def new_file_data_def)
  have b2: "first_real_commit ex_commit_of (rev (mathlib4_history ex_in_progress_history)) =
      Some ''0123abcd''"
    and b3: "first_real_commit ex_commit_of (rev (mathlib4_history ex_ported_gone)) = None"
    and c2: "try_commit ex_commit_of (commit ?src) = None"
    and st2: "state ex_in_progress_history = PORTED" "state ex_ported_gone = PORTED"
    by (simp_all add: ex_in_progress_history_def ex_ported_gone_def new_file_data_def
        ex_commit_of_def try_commit_def state_def)
  have 2: "make_out_of_sync_fences ex_commit_of ''e'' ex_in_progress_history =
      ([''no sync commit for: e''], Fences ''0123abcd'' ''0123abcd'')"
    using make_out_of_sync_fences_rule [OF s2 r2, where commit_of = ex_commit_of
        and imp = "''e''" and b = "''0123abcd''", THEN conjunct2, THEN conjunct1] b2 c2 st2
    by simp
  have 3: "make_out_of_sync_fences ex_commit_of ''e'' ex_ported_gone =
      ([''no commits at all for: e PortState.PORTED''], Skipped)"
    using make_out_of_sync_fences_rule [OF s3 r2, where commit_of = ex_commit_of
        and imp = "''e''", THEN conjunct2, THEN conjunct2, THEN conjunct1] b3 c2 st2
    by (simp add: PortState_str_def)
  from 1 2 3 show ?thesis by (intro conjI)
qed

subsection \<open>Rate limits\<close>

lemma get_status_information_labels:
  "get_status_information w items data = Inr data' \<Longrightarrow> (k, st) \<in> set items \<Longrightarrow>
   \<exists>lbls. status_labels w st = Inr lbls"
proof (induction items arbitrary: data)
  case Nil
  then show ?case by simp
next
  case (Cons item items)
  obtain k' st' where item: "item = (k', st')" by (cases item)
  from Cons.prems(1) obtain n lbls where l: "status_labels w st' = Inr lbls"
    and rest: "get_status_information w items
        (dict_set data k' (new_file_data (split_on CHR ''.'' k') st' n lbls)) = Inr data'"
    unfolding item by (auto split: sum.splits)
  show ?case
  proof (cases "(k, st) = item")
    case True
    with l item show ?thesis by auto
  next
    case False
    with Cons.prems(2) have "(k, st) \<in> set items" by simp
    with rest show ?thesis by (rule Cons.IH)
  qed
qed

lemma status_labels_rate_limited:
  assumes "''GITPOD_HOST'' \<notin> os_environ w" and "\<not> ported st" and "mathlib4_pr st = Some pr"
    and "pr \<noteq> 0" and "get_pull_labels w pr = Inl RateLimitExceededException"
  shows "status_labels w st = Inl RateLimitExceededException"
  using assms by (simp add: status_labels_def truthy_int_def github_labels_def)

text \<open>
  C9. When the label fetch hits the rate limit, \<^verbatim>\<open>github_labels\<close> returns the empty
  list with a warning if and only if \<^verbatim>\<open>GITPOD_HOST\<close> is in the environment, and
  raises the rate-limit exception if and only if it is not; in the latter case
  \<^verbatim>\<open>get_data\<close>, which fetches the labels of every file that is not ported and has a
  pull-request id, ends with an exception.
\<close>

theorem github_labels_rate_limit:
  "(github_labels environ tc (Inl RateLimitExceededException) = Inr ([rate_limit_warning], [])
      \<longleftrightarrow> ''GITPOD_HOST'' \<in> environ) \<and>
   (github_labels environ tc (Inl RateLimitExceededException) = Inl RateLimitExceededException
      \<longleftrightarrow> ''GITPOD_HOST'' \<notin> environ) \<and>
   (''GITPOD_HOST'' \<notin> os_environ w \<and> (f_import, f_status) \<in> set (port_status w) \<and>
    \<not> ported f_status \<and> mathlib4_pr f_status = Some pr \<and> pr \<noteq> 0 \<and>
    get_pull_labels w pr = Inl RateLimitExceededException \<longrightarrow>
      (\<exists>e. get_data w = Inl e))"
proof (intro conjI impI)
  show "github_labels environ tc (Inl RateLimitExceededException) = Inr ([rate_limit_warning], [])
      \<longleftrightarrow> ''GITPOD_HOST'' \<in> environ"
    by (simp add: github_labels_def)
  show "github_labels environ tc (Inl RateLimitExceededException) = Inl RateLimitExceededException
      \<longleftrightarrow> ''GITPOD_HOST'' \<notin> environ"
    by (simp add: github_labels_def)
next
  assume h: "''GITPOD_HOST'' \<notin> os_environ w \<and> (f_import, f_status) \<in> set (port_status w) \<and>
    \<not> ported f_status \<and> mathlib4_pr f_status = Some pr \<and> pr \<noteq> 0 \<and>
    get_pull_labels w pr = Inl RateLimitExceededException"
  then have fail: "status_labels w f_status = Inl RateLimitExceededException"
    using status_labels_rate_limited [of w f_status pr] by blast
  show "\<exists>e. get_data w = Inl e"
  proof (cases "get_status_information w (port_status w) []")
    case (Inl e)
    then show ?thesis by (simp add: get_data_def)
  next
    case (Inr data0)
    with h have "\<exists>lbls. status_labels w f_status = Inr lbls"
      using get_status_information_labels by blast
    with fail show ?thesis by simp
  qed
qed

theorem github_labels_rate_limit_witness:
  "github_labels {''GITPOD_HOST''} (\<lambda>c. ''white'') (Inl RateLimitExceededException) =
     Inr ([rate_limit_warning], []) \<and>
   github_labels {} (\<lambda>c. ''white'') (Inl RateLimitExceededException) =
     Inl RateLimitExceededException \<and>
   ''GITPOD_HOST'' \<notin> os_environ ex_world_rate_limited \<and>
   (''b'', status ex_in_progress) \<in> set (port_status ex_world_rate_limited) \<and>
   (\<exists>e. get_data ex_world_rate_limited = Inl e)"
proof -
  have 1: "github_labels {''GITPOD_HOST''} (\<lambda>c. ''white'') (Inl RateLimitExceededException) =
      Inr ([rate_limit_warning], [])"
    using github_labels_rate_limit [where environ = "{''GITPOD_HOST''}", THEN conjunct1] by simp
  have 2: "github_labels {} (\<lambda>c. ''white'') (Inl RateLimitExceededException) =
      Inl RateLimitExceededException"
    using github_labels_rate_limit [where environ = "{}", THEN conjunct2, THEN conjunct1] by simp
  have e: "''GITPOD_HOST'' \<notin> os_environ ex_world_rate_limited"
    and m: "(''b'', status ex_in_progress) \<in> set (port_status ex_world_rate_limited)"
    and p: "\<not> ported (status ex_in_progress)" "mathlib4_pr (status ex_in_progress) = Some 42"
    and f: "get_pull_labels ex_world_rate_limited 42 = Inl RateLimitExceededException"
    by (simp_all add: ex_world_rate_limited_def ex_world_def ex_in_progress_def new_file_data_def)
  have "\<exists>e. get_data ex_world_rate_limited = Inl e"
    using github_labels_rate_limit [where w = ex_world_rate_limited and f_import = "''b''"
        and f_status = "status ex_in_progress" and pr = 42, THEN conjunct2, THEN conjunct2]
      e m p f by simp
  with 1 2 e m show ?thesis by (intro conjI)
qed

subsection \<open>Commits of unrecognized repositories\<close>

text \<open>
  C10. For a source record whose repository name is neither of the two recognized
  names, \<^verbatim>\<open>commit_exists\<close> returns \<^verbatim>\<open>True\<close> and \<^verbatim>\<open>link_sha\<close> renders the plain link
  (class \<^verbatim>\<open>font-monospace\<close>, without the \<^verbatim>\<open>text-danger\<close> mark); \<^verbatim>\<open>commit_exists\<close>
  returns \<^verbatim>\<open>False\<close> exactly when the repository is recognized and resolving the commit
  raises \<^verbatim>\<open>ValueError\<close>.
\<close>

theorem commit_exists_rule:
  "(repo src \<noteq> ''leanprover-community/mathlib'' \<and> repo src \<noteq> ''leanprover-community/mathlib4'' \<longrightarrow>
      commit_exists repo_commit src = Inr True \<and>
      link_sha repo_commit escape (SourceRef src) =
        Inr (''<a href=\"https://github.com/'' @ escape (repo src) @ ''/commit/'' @
             escape (commit src) @ ''\" class=\"font-monospace\">'' @
             escape (take 8 (commit src)) @ ''</a>'')) \<and>
   (commit_exists repo_commit src = Inr False \<longleftrightarrow>
      (\<exists>r. get_repo_by_github_name (repo src) = Inr r \<and>
           repo_commit r (commit src) = Inl ValueError))"
proof (intro conjI impI)
  assume u: "repo src \<noteq> ''leanprover-community/mathlib'' \<and>
    repo src \<noteq> ''leanprover-community/mathlib4''"
  then show t: "commit_exists repo_commit src = Inr True"
    by (simp add: commit_exists_def get_repo_by_github_name_def)
  show "link_sha repo_commit escape (SourceRef src) =
      Inr (''<a href=\"https://github.com/'' @ escape (repo src) @ ''/commit/'' @
           escape (commit src) @ ''\" class=\"font-monospace\">'' @
           escape (take 8 (commit src)) @ ''</a>'')"
    by (simp add: link_sha_def t link_markup_def)
next
  show "commit_exists repo_commit src = Inr False \<longleftrightarrow>
      (\<exists>r. get_repo_by_github_name (repo src) = Inr r \<and>
           repo_commit r (commit src) = Inl ValueError)"
    by (auto simp add: commit_exists_def get_repo_by_github_name_def
        split: sum.splits py_error.splits)
qed

theorem commit_exists_rule_witness:
  "repo ex_foreign_source \<noteq> ''leanprover-community/mathlib'' \<and>
   repo ex_foreign_source \<noteq> ''leanprover-community/mathlib4'' \<and>
   commit_exists (\<lambda>r h. Inl ValueError) ex_foreign_source = Inr True \<and>
   link_sha (\<lambda>r h. Inl ValueError) (\<lambda>s. s) (SourceRef ex_foreign_source) =
     Inr ''<a href=\"https://github.com/leanprover/lean/commit/89abcdef0123\" class=\"font-monospace\">89abcdef</a>''"
proof -
  have u: "repo ex_foreign_source \<noteq> ''leanprover-community/mathlib'' \<and>
      repo ex_foreign_source \<noteq> ''leanprover-community/mathlib4''"
    by (simp add: ex_foreign_source_def)
  from commit_exists_rule [where src = ex_foreign_source and repo_commit = "\<lambda>r h. Inl ValueError"
      and escape = "\<lambda>s. s", THEN conjunct1, rule_format, OF u]
  have "commit_exists (\<lambda>r h. Inl ValueError) ex_foreign_source = Inr True"
    and "link_sha (\<lambda>r h. Inl ValueError) (\<lambda>s. s) (SourceRef ex_foreign_source) =
      Inr ''<a href=\"https://github.com/leanprover/lean/commit/89abcdef0123\" class=\"font-monospace\">89abcdef</a>''"
    by (simp_all add: ex_foreign_source_def)
  with u show ?thesis by (intro conjI) simp_all
qed

end
